theory Spec2Isabelle
  imports Main "HOL-Library.Product_Lexorder"
begin

section \<open>Data model (shared/schema.ts)\<close>

text \<open>
  Every table of the schema is a list of rows, in the order the rows were inserted; a row
  is a record with the columns of the table. Keys and foreign keys are integers, a
  nullable column is an option, a timestamp is an integer (milliseconds). The columns
  \<open>votes\<close>, \<open>views\<close>, \<open>likes\<close>, \<open>isAccepted\<close>, \<open>isRead\<close> and \<open>createdAt\<close> carry a
  default in the schema and are never written as null by the repository, so they are
  modelled without the null.

  A select without \<open>ORDER BY\<close> returns the rows in table order, and an \<open>ORDER BY\<close> is a
  stable sort of the table order: among rows with equal sort keys the substrate leaves
  the order open, and the model fixes it to the table order.

  The substrate's own failures (a violated foreign key, a lost connection) abort a
  repository call with an exception and are outside this model: the definitions below
  give the effect of a call all of whose statements succeed.
\<close>

record user =
  u_id :: int
  u_username :: string
  u_name :: string
  u_email :: "string option"
  u_profileImageUrl :: "string option"
  u_isAdmin :: bool

record question =
  q_id :: int
  q_title :: string
  q_description :: string
  q_authorId :: int
  q_tags :: "string list"
  q_votes :: int
  q_views :: int
  q_acceptedAnswerId :: "int option"
  q_createdAt :: int

record answer =
  a_id :: int
  a_content :: string
  a_questionId :: int
  a_authorId :: int
  a_votes :: int
  a_isAccepted :: bool
  a_createdAt :: int

record vote =
  v_id :: int
  v_userId :: int
  v_questionId :: "int option"
  v_answerId :: "int option"
  v_voteType :: string
  v_createdAt :: int

record notification =
  n_id :: int
  n_userId :: int
  n_type :: string
  n_title :: string
  n_message :: string
  n_questionId :: "int option"
  n_answerId :: "int option"
  n_isRead :: bool
  n_createdAt :: int

record post =
  p_id :: int
  p_title :: string
  p_content :: string
  p_authorId :: int
  p_likes :: int
  p_shares :: int
  p_tags :: "string list"
  p_createdAt :: int

record postComment =
  pc_id :: int
  pc_postId :: int
  pc_authorId :: int
  pc_content :: string
  pc_createdAt :: int

record postLike =
  pl_id :: int
  pl_postId :: int
  pl_userId :: int
  pl_createdAt :: int

text \<open>
  The database: the tables, and for each table the repository inserts into, the last
  value its \<open>serial\<close> sequence has issued.
\<close>

record db =
  users :: "user list"
  questions :: "question list"
  answers :: "answer list"
  votes :: "vote list"
  notifications :: "notification list"
  posts :: "post list"
  postComments :: "postComment list"
  postLikes :: "postLike list"
  answers_seq :: int
  votes_seq :: int
  notifications_seq :: int
  postLikes_seq :: int

text \<open>JavaScript truthiness of an optional number: \<open>undefined\<close>, \<open>null\<close> and \<open>0\<close> are falsy.\<close>

fun truthy :: "int option \<Rightarrow> bool" where
  "truthy None = False"
| "truthy (Some n) = (n \<noteq> 0)"

text \<open>\<open>x || null\<close> on an optional number.\<close>

definition or_null :: "int option \<Rightarrow> int option" where
  "or_null x = (if truthy x then x else None)"

text \<open>\<open>const [row] = await db.select()...\<close>: the first row of a result, or undefined.\<close>

fun first_row :: "'a list \<Rightarrow> 'a option" where
  "first_row [] = None"
| "first_row (x # xs) = Some x"

section \<open>Read models of questions and answers (server/storage.ts)\<close>

text \<open>
  The author summary joined to a row. The left join yields nulls when the author row is
  missing, and the repository then substitutes \<open>Unknown\<close> and \<open>unknown\<close>. The remaining
  fields of the summary are constants of the source and are left out.
\<close>

record author =
  au_id :: int
  au_name :: string
  au_username :: string
  au_profileImageUrl :: "string option"

definition author_of :: "db \<Rightarrow> int \<Rightarrow> author" where
  "author_of d authorId =
     (case first_row (filter (\<lambda>u. u_id u = authorId) (users d)) of
        None \<Rightarrow> \<lparr>au_id = authorId, au_name = ''Unknown'', au_username = ''unknown'',
                 au_profileImageUrl = None\<rparr>
      | Some u \<Rightarrow> \<lparr>au_id = authorId,
                  au_name = (if u_name u = [] then ''Unknown'' else u_name u),
                  au_username = (if u_username u = [] then ''unknown'' else u_username u),
                  au_profileImageUrl = u_profileImageUrl u\<rparr>)"

record answerWithAuthor =
  aw_answer :: answer
  aw_author :: author

record questionWithAuthor =
  qw_question :: question
  qw_author :: author
  qw_answers :: "answerWithAuthor list"
  qw_count_answers :: nat

text \<open>
  \<open>getAnswersByQuestionId\<close>: the answers of a question,
  \<open>ORDER BY is_accepted DESC, votes DESC, created_at ASC\<close>. The sort key is the triple
  compared lexicographically; an accepted answer has the smaller first component.
\<close>

definition answer_order_key :: "answer \<Rightarrow> nat \<times> int \<times> int" where
  "answer_order_key a = ((if a_isAccepted a then 0 else 1), - a_votes a, a_createdAt a)"

definition getAnswersByQuestionId :: "db \<Rightarrow> int \<Rightarrow> answerWithAuthor list" where
  "getAnswersByQuestionId d questionId =
     map (\<lambda>row. \<lparr>aw_answer = row, aw_author = author_of d (a_authorId row)\<rparr>)
       (sort_key answer_order_key (filter (\<lambda>a. a_questionId a = questionId) (answers d)))"

text \<open>
  \<open>getQuestion\<close>: the question row with its author, and its answers selected by a query
  of its own, \<open>ORDER BY created_at DESC\<close>; undefined when no question has the id.
\<close>

definition getQuestion :: "db \<Rightarrow> int \<Rightarrow> questionWithAuthor option" where
  "getQuestion d ident =
     (case first_row (filter (\<lambda>q. q_id q = ident) (questions d)) of
        None \<Rightarrow> None
      | Some question \<Rightarrow>
          (let questionAnswers =
                 sort_key (\<lambda>a. - a_createdAt a)
                   (filter (\<lambda>a. a_questionId a = ident) (answers d))
           in Some \<lparr>qw_question = question,
                    qw_author = author_of d (q_authorId question),
                    qw_answers = map (\<lambda>a. \<lparr>aw_answer = a,
                                             aw_author = author_of d (a_authorId a)\<rparr>)
                                   questionAnswers,
                    qw_count_answers = length questionAnswers\<rparr>))"

section \<open>Accepting an answer\<close>

text \<open>
  \<open>acceptAnswer\<close> issues three updates one after the other: clear the flag on the answers
  of the question, set the flag on the answer with the given id, set the pointer of the
  question.
\<close>

definition acceptAnswer :: "db \<Rightarrow> int \<Rightarrow> int \<Rightarrow> db" where
  "acceptAnswer d questionId answerId =
     (let d1 = d\<lparr>answers :=
                   map (\<lambda>a. if a_questionId a = questionId then a\<lparr>a_isAccepted := False\<rparr> else a)
                     (answers d)\<rparr>;
          d2 = d1\<lparr>answers :=
                    map (\<lambda>a. if a_id a = answerId then a\<lparr>a_isAccepted := True\<rparr> else a)
                      (answers d1)\<rparr>
      in d2\<lparr>questions :=
               map (\<lambda>q. if q_id q = questionId then q\<lparr>q_acceptedAnswerId := Some answerId\<rparr> else q)
                 (questions d2)\<rparr>)"

text \<open>The accepted answers of a question.\<close>

definition accepted_answers :: "db \<Rightarrow> int \<Rightarrow> answer list" where
  "accepted_answers d questionId =
     filter (\<lambda>a. a_questionId a = questionId \<and> a_isAccepted a) (answers d)"

section \<open>Answers and notifications\<close>

text \<open>
  \<open>createAnswer\<close> and \<open>createNotification\<close> are plain inserts: the substrate assigns the
  key from the sequence, fills the defaults (\<open>votes = 0\<close>, \<open>isAccepted = false\<close>,
  \<open>isRead = false\<close>) and stamps the row with its clock \<open>now\<close>; the inserted row is returned.
\<close>

record insertAnswer =
  ia_content :: string
  ia_questionId :: int
  ia_authorId :: int

definition createAnswer :: "db \<Rightarrow> int \<Rightarrow> insertAnswer \<Rightarrow> db \<times> answer" where
  "createAnswer d now ans =
     (let newAnswer = \<lparr>a_id = answers_seq d + 1, a_content = ia_content ans,
                        a_questionId = ia_questionId ans, a_authorId = ia_authorId ans,
                        a_votes = 0, a_isAccepted = False, a_createdAt = now\<rparr>
      in (d\<lparr>answers := answers d @ [newAnswer], answers_seq := answers_seq d + 1\<rparr>, newAnswer))"

record insertNotification =
  in_userId :: int
  in_type :: string
  in_title :: string
  in_message :: string
  in_questionId :: "int option"
  in_answerId :: "int option"

definition createNotification :: "db \<Rightarrow> int \<Rightarrow> insertNotification \<Rightarrow> db \<times> notification" where
  "createNotification d now n =
     (let newNotification = \<lparr>n_id = notifications_seq d + 1, n_userId = in_userId n,
                              n_type = in_type n, n_title = in_title n,
                              n_message = in_message n, n_questionId = in_questionId n,
                              n_answerId = in_answerId n, n_isRead = False, n_createdAt = now\<rparr>
      in (d\<lparr>notifications := notifications d @ [newNotification],
             notifications_seq := notifications_seq d + 1\<rparr>, newNotification))"

section \<open>Route handlers for answers (server/routes.ts)\<close>

text \<open>
  A handler takes the database, the substrate's clock, the user of the session (\<open>None\<close>
  when the session has none) and the parsed request, and returns the database it leaves
  and the response. Path parameters are taken as the integers \<open>parseInt\<close> produced.

  \<open>POST /api/questions/:id/answers\<close>: the body's \<open>content\<close> is \<open>None\<close> when the field is
  missing, which \<open>insertAnswerSchema.parse\<close> rejects (status 400).
\<close>

datatype answer_response =
    AnswerUnauthorized
  | AnswerInvalid
  | AnswerCreated answer

definition insertAnswerSchema_parse :: "string option \<Rightarrow> int \<Rightarrow> int \<Rightarrow> insertAnswer option" where
  "insertAnswerSchema_parse content questionId authorId =
     (case content of
        None \<Rightarrow> None
      | Some c \<Rightarrow> Some \<lparr>ia_content = c, ia_questionId = questionId, ia_authorId = authorId\<rparr>)"

definition post_answer :: "db \<Rightarrow> int \<Rightarrow> int option \<Rightarrow> int \<Rightarrow> string option \<Rightarrow> db \<times> answer_response" where
  "post_answer d now sessionUser questionId content =
     (case sessionUser of
        None \<Rightarrow> (d, AnswerUnauthorized)
      | Some userId \<Rightarrow>
          (case insertAnswerSchema_parse content questionId userId of
             None \<Rightarrow> (d, AnswerInvalid)
           | Some answerData \<Rightarrow>
               (let (d1, ans) = createAnswer d now answerData
                in case getQuestion d1 questionId of
                     None \<Rightarrow> (d1, AnswerCreated ans)
                   | Some question \<Rightarrow>
                       if q_authorId (qw_question question) \<noteq> userId
                       then (fst (createNotification d1 now
                                    \<lparr>in_userId = q_authorId (qw_question question),
                                     in_type = ''question_answered'',
                                     in_title = ''New Answer'',
                                     in_message = ''Someone answered your question: ''
                                                    @ q_title (qw_question question),
                                     in_questionId = Some questionId,
                                     in_answerId = Some (a_id ans)\<rparr>),
                             AnswerCreated ans)
                       else (d1, AnswerCreated ans))))"

text \<open>
  \<open>POST /api/questions/:questionId/answers/:answerId/accept\<close>: the question is read
  before \<open>acceptAnswer\<close> runs, and the answer to notify is looked up in that question's
  answer list.
\<close>

datatype accept_response =
    AcceptUnauthorized
  | AcceptNotFound
  | AcceptForbidden
  | AcceptOk

definition post_accept :: "db \<Rightarrow> int \<Rightarrow> int option \<Rightarrow> int \<Rightarrow> int \<Rightarrow> db \<times> accept_response" where
  "post_accept d now sessionUser questionId answerId =
     (case sessionUser of
        None \<Rightarrow> (d, AcceptUnauthorized)
      | Some userId \<Rightarrow>
          (case getQuestion d questionId of
             None \<Rightarrow> (d, AcceptNotFound)
           | Some question \<Rightarrow>
               if q_authorId (qw_question question) \<noteq> userId then (d, AcceptForbidden)
               else
                 (let d1 = acceptAnswer d questionId answerId
                  in case find (\<lambda>a. a_id (aw_answer a) = answerId) (qw_answers question) of
                       None \<Rightarrow> (d1, AcceptOk)
                     | Some ans \<Rightarrow>
                         if a_authorId (aw_answer ans) \<noteq> userId
                         then (fst (createNotification d1 now
                                      \<lparr>in_userId = a_authorId (aw_answer ans),
                                       in_type = ''answer_accepted'',
                                       in_title = ''Answer Accepted'',
                                       in_message = ''Your answer was accepted for: ''
                                                      @ q_title (qw_question question),
                                       in_questionId = Some questionId,
                                       in_answerId = Some answerId\<rparr>),
                               AcceptOk)
                         else (d1, AcceptOk))))"

section \<open>Voting\<close>

text \<open>
  \<open>getVote\<close> always filters on the user, and adds the conditions on a reference only when
  the argument is truthy. A comparison of a null column with a number is not true in SQL,
  so \<open>eq(votes.questionId, q)\<close> holds of a row exactly when its column is \<open>Some q\<close>.
\<close>

definition getVote :: "db \<Rightarrow> int \<Rightarrow> int option \<Rightarrow> int option \<Rightarrow> vote option" where
  "getVote d userId questionId answerId =
     first_row (filter (\<lambda>v. v_userId v = userId
                           \<and> (if truthy questionId
                              then v_questionId v = questionId \<and> v_answerId v = None else True)
                           \<and> (if truthy answerId
                              then v_answerId v = answerId \<and> v_questionId v = None else True))
                  (votes d))"

text \<open>
  \<open>updateVoteCount\<close>: for a truthy question id, count the up rows and the down rows of the
  question and write the difference into the question; then the same for a truthy answer
  id. The third parameter is not used by the source.
\<close>

definition count_question_votes :: "vote list \<Rightarrow> int \<Rightarrow> string \<Rightarrow> nat" where
  "count_question_votes vs questionId voteType =
     length (filter (\<lambda>v. v_questionId v = Some questionId \<and> v_voteType v = voteType) vs)"

definition count_answer_votes :: "vote list \<Rightarrow> int \<Rightarrow> string \<Rightarrow> nat" where
  "count_answer_votes vs answerId voteType =
     length (filter (\<lambda>v. v_answerId v = Some answerId \<and> v_voteType v = voteType) vs)"

definition updateVoteCount :: "db \<Rightarrow> int option \<Rightarrow> int option \<Rightarrow> string \<Rightarrow> db" where
  "updateVoteCount d questionId answerId voteType =
     (let d1 = (case questionId of
                  None \<Rightarrow> d
                | Some qid \<Rightarrow>
                    if qid = 0 then d
                    else
                      (let totalVotes = count_question_votes (votes d) qid ''up'';
                           downVotes = count_question_votes (votes d) qid ''down'';
                           netVotes = int totalVotes - int downVotes
                       in d\<lparr>questions :=
                              map (\<lambda>q. if q_id q = qid then q\<lparr>q_votes := netVotes\<rparr> else q)
                                (questions d)\<rparr>))
      in (case answerId of
            None \<Rightarrow> d1
          | Some aid \<Rightarrow>
              if aid = 0 then d1
              else
                (let totalVotes = count_answer_votes (votes d1) aid ''up'';
                     downVotes = count_answer_votes (votes d1) aid ''down'';
                     netVotes = int totalVotes - int downVotes
                 in d1\<lparr>answers :=
                         map (\<lambda>a. if a_id a = aid then a\<lparr>a_votes := netVotes\<rparr> else a)
                           (answers d1)\<rparr>)))"

record insertVote =
  iv_userId :: int
  iv_questionId :: "int option"
  iv_answerId :: "int option"
  iv_voteType :: string

definition createVote :: "db \<Rightarrow> int \<Rightarrow> insertVote \<Rightarrow> db \<times> vote" where
  "createVote d now vt =
     (let newVote = \<lparr>v_id = votes_seq d + 1, v_userId = iv_userId vt,
                      v_questionId = iv_questionId vt, v_answerId = iv_answerId vt,
                      v_voteType = iv_voteType vt, v_createdAt = now\<rparr>;
          d1 = d\<lparr>votes := votes d @ [newVote], votes_seq := votes_seq d + 1\<rparr>
      in (updateVoteCount d1 (iv_questionId vt) (iv_answerId vt) (iv_voteType vt), newVote))"

text \<open>
  \<open>updateVote\<close> reads a field of the first updated row: when no row has the id, that row
  is undefined and the read throws, after an update that changed nothing.
\<close>

datatype error = TypeError

definition updateVote :: "db \<Rightarrow> int \<Rightarrow> string \<Rightarrow> error + db \<times> vote" where
  "updateVote d ident voteType =
     (let d1 = d\<lparr>votes := map (\<lambda>v. if v_id v = ident then v\<lparr>v_voteType := voteType\<rparr> else v)
                              (votes d)\<rparr>
      in case first_row (filter (\<lambda>v. v_id v = ident) (votes d1)) of
           None \<Rightarrow> Inl TypeError
         | Some updatedVote \<Rightarrow>
             Inr (updateVoteCount d1 (v_questionId updatedVote) (v_answerId updatedVote) voteType,
                  updatedVote))"

definition deleteVote :: "db \<Rightarrow> int \<Rightarrow> db" where
  "deleteVote d ident =
     (let vt = first_row (filter (\<lambda>v. v_id v = ident) (votes d));
          d1 = d\<lparr>votes := filter (\<lambda>v. v_id v \<noteq> ident) (votes d)\<rparr>
      in case vt of
           None \<Rightarrow> d1
         | Some v \<Rightarrow>
             updateVoteCount d1 (v_questionId v) (v_answerId v)
               (if v_voteType v = ''up'' then ''down'' else ''up''))"

text \<open>
  \<open>insertVoteSchema\<close> is derived from the table: \<open>userId\<close> is required, both references
  are nullable and optional, and \<open>voteType\<close> must be one of the column's two values.
\<close>

definition insertVoteSchema_parse :: "int \<Rightarrow> int option \<Rightarrow> int option \<Rightarrow> string \<Rightarrow> insertVote option" where
  "insertVoteSchema_parse userId questionId answerId voteType =
     (if voteType = ''up'' \<or> voteType = ''down''
      then Some \<lparr>iv_userId = userId, iv_questionId = questionId, iv_answerId = answerId,
                 iv_voteType = voteType\<rparr>
      else None)"

text \<open>
  \<open>POST /api/votes\<close>. The body carries \<open>questionId\<close> and \<open>answerId\<close> (\<open>None\<close> when absent or
  null) and \<open>voteType\<close>. The existing vote is looked up first; the schema is applied only
  when none is found.
\<close>

datatype vote_response =
    VoteUnauthorized
  | VoteRemoved
  | VoteUpdated vote
  | VoteCreated vote
  | VoteInvalid
  | VoteFailed

definition post_vote :: "db \<Rightarrow> int \<Rightarrow> int option \<Rightarrow> int option \<Rightarrow> int option \<Rightarrow> string \<Rightarrow> db \<times> vote_response" where
  "post_vote d now sessionUser questionId answerId voteType =
     (case sessionUser of
        None \<Rightarrow> (d, VoteUnauthorized)
      | Some userId \<Rightarrow>
          (case getVote d userId questionId answerId of
             Some existingVote \<Rightarrow>
               if v_voteType existingVote = voteType
               then (deleteVote d (v_id existingVote), VoteRemoved)
               else (case updateVote d (v_id existingVote) voteType of
                       Inl e \<Rightarrow> (d, VoteFailed)
                     | Inr (d1, updatedVote) \<Rightarrow> (d1, VoteUpdated updatedVote))
           | None \<Rightarrow>
               (case insertVoteSchema_parse userId (or_null questionId) (or_null answerId) voteType of
                  None \<Rightarrow> (d, VoteInvalid)
                | Some voteData \<Rightarrow>
                    (let (d1, vt) = createVote d now voteData in (d1, VoteCreated vt)))))"

section \<open>Targets and tallies\<close>

text \<open>
  The target of a vote is a question or an answer; a request for a target sets the one
  reference and leaves the other out.
\<close>

datatype target = OnQuestion int | OnAnswer int

fun target_id :: "target \<Rightarrow> int" where
  "target_id (OnQuestion qid) = qid"
| "target_id (OnAnswer aid) = aid"

fun body_questionId :: "target \<Rightarrow> int option" where
  "body_questionId (OnQuestion qid) = Some qid"
| "body_questionId (OnAnswer aid) = None"

fun body_answerId :: "target \<Rightarrow> int option" where
  "body_answerId (OnQuestion qid) = None"
| "body_answerId (OnAnswer aid) = Some aid"

definition cast_vote :: "db \<Rightarrow> int \<Rightarrow> int \<Rightarrow> target \<Rightarrow> string \<Rightarrow> db" where
  "cast_vote d now userId tgt voteType =
     fst (post_vote d now (Some userId) (body_questionId tgt) (body_answerId tgt) voteType)"

text \<open>The vote rows of a user on a target.\<close>

fun votes_of_pair :: "db \<Rightarrow> int \<Rightarrow> target \<Rightarrow> vote list" where
  "votes_of_pair d userId (OnQuestion qid) =
     filter (\<lambda>v. v_userId v = userId \<and> v_questionId v = Some qid \<and> v_answerId v = None) (votes d)"
| "votes_of_pair d userId (OnAnswer aid) =
     filter (\<lambda>v. v_userId v = userId \<and> v_answerId v = Some aid \<and> v_questionId v = None) (votes d)"

text \<open>
  The net votes of a target as the vote rows give them: the number of up rows minus
  the number of down rows that refer to the target.
\<close>

definition net_question_votes :: "vote list \<Rightarrow> int \<Rightarrow> int" where
  "net_question_votes vs qid =
     int (length (filter (\<lambda>v. v_questionId v = Some qid \<and> v_voteType v = ''up'') vs))
     - int (length (filter (\<lambda>v. v_questionId v = Some qid \<and> v_voteType v = ''down'') vs))"

definition net_answer_votes :: "vote list \<Rightarrow> int \<Rightarrow> int" where
  "net_answer_votes vs aid =
     int (length (filter (\<lambda>v. v_answerId v = Some aid \<and> v_voteType v = ''up'') vs))
     - int (length (filter (\<lambda>v. v_answerId v = Some aid \<and> v_voteType v = ''down'') vs))"

text \<open>The stored tally of a target: the \<open>votes\<close> column of the rows with the id.\<close>

fun stored_tally :: "db \<Rightarrow> target \<Rightarrow> int list" where
  "stored_tally d (OnQuestion qid) = map q_votes (filter (\<lambda>q. q_id q = qid) (questions d))"
| "stored_tally d (OnAnswer aid) = map a_votes (filter (\<lambda>a. a_id a = aid) (answers d))"

text \<open>The stored tally of a target agrees with its vote rows.\<close>

fun tally_in_sync :: "db \<Rightarrow> target \<Rightarrow> bool" where
  "tally_in_sync d (OnQuestion qid) =
     list_all (\<lambda>q. q_votes q = net_question_votes (votes d) qid)
       (filter (\<lambda>q. q_id q = qid) (questions d))"
| "tally_in_sync d (OnAnswer aid) =
     list_all (\<lambda>a. a_votes a = net_answer_votes (votes d) aid)
       (filter (\<lambda>a. a_id a = aid) (answers d))"

text \<open>The targets a vote row refers to by a truthy reference.\<close>

definition targets_of :: "vote \<Rightarrow> target list" where
  "targets_of v =
     (case v_questionId v of None \<Rightarrow> [] | Some qid \<Rightarrow> if qid = 0 then [] else [OnQuestion qid])
     @ (case v_answerId v of None \<Rightarrow> [] | Some aid \<Rightarrow> if aid = 0 then [] else [OnAnswer aid])"

text \<open>No key of a vote row is beyond the value the sequence has issued last.\<close>

definition votes_seq_ok :: "db \<Rightarrow> bool" where
  "votes_seq_ok d = list_all (\<lambda>v. v_id v \<le> votes_seq d) (votes d)"

text \<open>The row \<open>createVote\<close> inserts for a request on a target.\<close>

definition new_vote :: "db \<Rightarrow> int \<Rightarrow> int \<Rightarrow> target \<Rightarrow> string \<Rightarrow> vote" where
  "new_vote d now userId tgt voteType =
     \<lparr>v_id = votes_seq d + 1, v_userId = userId, v_questionId = body_questionId tgt,
      v_answerId = body_answerId tgt, v_voteType = voteType, v_createdAt = now\<rparr>"

section \<open>Likes of a post\<close>

definition isPostLikedByUser :: "db \<Rightarrow> int \<Rightarrow> int \<Rightarrow> bool" where
  "isPostLikedByUser d postId userId =
     (first_row (filter (\<lambda>l. pl_postId l = postId \<and> pl_userId l = userId) (postLikes d)) \<noteq> None)"

text \<open>\<open>likePost\<close> inserts and increments only when the pair has no row yet.\<close>

definition likePost :: "db \<Rightarrow> int \<Rightarrow> int \<Rightarrow> int \<Rightarrow> db" where
  "likePost d now postId userId =
     (let existingLike = filter (\<lambda>l. pl_postId l = postId \<and> pl_userId l = userId) (postLikes d)
      in if length existingLike = 0
         then
           (let d1 = d\<lparr>postLikes := postLikes d @ [\<lparr>pl_id = postLikes_seq d + 1, pl_postId = postId,
                                                     pl_userId = userId, pl_createdAt = now\<rparr>],
                        postLikes_seq := postLikes_seq d + 1\<rparr>
            in d1\<lparr>posts := map (\<lambda>p. if p_id p = postId then p\<lparr>p_likes := p_likes p + 1\<rparr> else p)
                               (posts d1)\<rparr>)
         else d)"

text \<open>
  \<open>unlikePost\<close> deletes the rows of the pair and then decrements the counter; the result
  of the delete is bound to a constant that the source never reads.
\<close>

definition unlikePost :: "db \<Rightarrow> int \<Rightarrow> int \<Rightarrow> db" where
  "unlikePost d postId userId =
     (let d1 = d\<lparr>postLikes := filter (\<lambda>l. \<not> (pl_postId l = postId \<and> pl_userId l = userId))
                                 (postLikes d)\<rparr>
      in d1\<lparr>posts := map (\<lambda>p. if p_id p = postId then p\<lparr>p_likes := p_likes p - 1\<rparr> else p)
                         (posts d1)\<rparr>)"

text \<open>\<open>POST /api/posts/:id/like\<close>: the toggle.\<close>

datatype like_response =
    LikeUnauthorized
  | PostUnliked
  | PostLiked

definition post_like :: "db \<Rightarrow> int \<Rightarrow> int option \<Rightarrow> int \<Rightarrow> db \<times> like_response" where
  "post_like d now sessionUser postId =
     (case sessionUser of
        None \<Rightarrow> (d, LikeUnauthorized)
      | Some userId \<Rightarrow>
          if isPostLikedByUser d postId userId
          then (unlikePost d postId userId, PostUnliked)
          else (likePost d now postId userId, PostLiked))"

text \<open>
  The read model of a post counts the like rows of the post (\<open>_count.likes\<close> in \<open>getPost\<close>).
\<close>

definition count_likes :: "db \<Rightarrow> int \<Rightarrow> nat" where
  "count_likes d postId = length (filter (\<lambda>l. pl_postId l = postId) (postLikes d))"

section \<open>Deleting a user\<close>

text \<open>
  \<open>deleteUser\<close> first reads the ids of the user's questions and then issues its delete
  statements one after the other. The statements are kept as values, so that the order
  in which they are issued can be stated; \<open>execute\<close> gives the effect of one statement.
\<close>

datatype statement =
    DeleteAnswersOfQuestions "int list"
  | DeleteAnswersByAuthor int
  | DeleteQuestionsByAuthor int
  | DeleteVotesByUser int
  | DeleteNotificationsByUser int
  | DeletePostLikesByUser int
  | DeletePostCommentsByAuthor int
  | DeletePostsByAuthor int
  | DeleteUserRow int

fun execute :: "db \<Rightarrow> statement \<Rightarrow> db" where
  "execute d (DeleteAnswersOfQuestions questionIds) =
     d\<lparr>answers := filter (\<lambda>a. a_questionId a \<notin> set questionIds) (answers d)\<rparr>"
| "execute d (DeleteAnswersByAuthor ident) =
     d\<lparr>answers := filter (\<lambda>a. a_authorId a \<noteq> ident) (answers d)\<rparr>"
| "execute d (DeleteQuestionsByAuthor ident) =
     d\<lparr>questions := filter (\<lambda>q. q_authorId q \<noteq> ident) (questions d)\<rparr>"
| "execute d (DeleteVotesByUser ident) =
     d\<lparr>votes := filter (\<lambda>v. v_userId v \<noteq> ident) (votes d)\<rparr>"
| "execute d (DeleteNotificationsByUser ident) =
     d\<lparr>notifications := filter (\<lambda>n. n_userId n \<noteq> ident) (notifications d)\<rparr>"
| "execute d (DeletePostLikesByUser ident) =
     d\<lparr>postLikes := filter (\<lambda>l. pl_userId l \<noteq> ident) (postLikes d)\<rparr>"
| "execute d (DeletePostCommentsByAuthor ident) =
     d\<lparr>postComments := filter (\<lambda>c. pc_authorId c \<noteq> ident) (postComments d)\<rparr>"
| "execute d (DeletePostsByAuthor ident) =
     d\<lparr>posts := filter (\<lambda>p. p_authorId p \<noteq> ident) (posts d)\<rparr>"
| "execute d (DeleteUserRow ident) =
     d\<lparr>users := filter (\<lambda>u. u_id u \<noteq> ident) (users d)\<rparr>"

definition deleteUser_statements :: "db \<Rightarrow> int \<Rightarrow> statement list" where
  "deleteUser_statements d ident =
     (let userQuestions = filter (\<lambda>q. q_authorId q = ident) (questions d);
          questionIds = map q_id userQuestions
      in (if length questionIds > 0 then [DeleteAnswersOfQuestions questionIds] else [])
         @ [DeleteAnswersByAuthor ident,
            DeleteQuestionsByAuthor ident,
            DeleteVotesByUser ident,
            DeleteNotificationsByUser ident,
            DeletePostLikesByUser ident,
            DeletePostCommentsByAuthor ident,
            DeletePostsByAuthor ident,
            DeleteUserRow ident])"

definition deleteUser :: "db \<Rightarrow> int \<Rightarrow> db" where
  "deleteUser d ident = foldl execute d (deleteUser_statements d ident)"

section \<open>Listing questions\<close>








section \<open>Example databases\<close>

text \<open>
  A forum with three users and three questions. Question 1 (by user 1) has answer 10 and
  no accepted answer; question 2 (by user 2) has answers 20 and 21, of which 20 is
  accepted; question 3 (by user 3) has no answer.
\<close>

definition forum_users :: "user list" where
  "forum_users =
     [\<lparr>u_id = 1, u_username = ''alice'', u_name = ''Alice'', u_email = None,
       u_profileImageUrl = None, u_isAdmin = False\<rparr>,
      \<lparr>u_id = 2, u_username = ''bob'', u_name = ''Bob'', u_email = None,
       u_profileImageUrl = None, u_isAdmin = False\<rparr>,
      \<lparr>u_id = 3, u_username = ''carol'', u_name = ''Carol'', u_email = None,
       u_profileImageUrl = None, u_isAdmin = False\<rparr>]"

definition forum_db :: db where
  "forum_db =
     \<lparr>users = forum_users,
      questions =
        [\<lparr>q_id = 1, q_title = ''How to X?'', q_description = ''x'', q_authorId = 1, q_tags = [],
          q_votes = 0, q_views = 0, q_acceptedAnswerId = None, q_createdAt = 10\<rparr>,
         \<lparr>q_id = 2, q_title = ''How to Z?'', q_description = ''z'', q_authorId = 2, q_tags = [],
          q_votes = 0, q_views = 0, q_acceptedAnswerId = Some 20, q_createdAt = 11\<rparr>,
         \<lparr>q_id = 3, q_title = ''Why W?'', q_description = ''w'', q_authorId = 3, q_tags = [],
          q_votes = 0, q_views = 0, q_acceptedAnswerId = None, q_createdAt = 12\<rparr>],
      answers =
        [\<lparr>a_id = 10, a_content = ''Do Y'', a_questionId = 1, a_authorId = 2, a_votes = 0,
          a_isAccepted = False, a_createdAt = 20\<rparr>,
         \<lparr>a_id = 20, a_content = ''Do W'', a_questionId = 2, a_authorId = 1, a_votes = 0,
          a_isAccepted = True, a_createdAt = 21\<rparr>,
         \<lparr>a_id = 21, a_content = ''Do V'', a_questionId = 2, a_authorId = 3, a_votes = 0,
          a_isAccepted = False, a_createdAt = 22\<rparr>],
      votes = [], notifications = [], posts = [], postComments = [], postLikes = [],
      answers_seq = 21, votes_seq = 0, notifications_seq = 0, postLikes_seq = 0\<rparr>"

text \<open>
  A community feed with one post (by user 2) that user 1 has liked; the stored counter
  agrees with the like rows.
\<close>

definition community_db :: db where
  "community_db =
     \<lparr>users = forum_users, questions = [], answers = [], votes = [], notifications = [],
      posts =
        [\<lparr>p_id = 1, p_title = ''Hello'', p_content = ''First post'', p_authorId = 2,
          p_likes = 1, p_shares = 0, p_tags = [], p_createdAt = 30\<rparr>],
      postComments = [],
      postLikes = [\<lparr>pl_id = 1, pl_postId = 1, pl_userId = 1, pl_createdAt = 31\<rparr>],
      answers_seq = 0, votes_seq = 0, notifications_seq = 0, postLikes_seq = 1\<rparr>"


text \<open>
  A question with one down vote, cast by user 2; the stored tally agrees with the rows.
\<close>

definition voting_db :: db where
  "voting_db =
     \<lparr>users = forum_users,
      questions =
        [\<lparr>q_id = 1, q_title = ''How to X?'', q_description = ''x'', q_authorId = 1, q_tags = [],
          q_votes = - 1, q_views = 0, q_acceptedAnswerId = None, q_createdAt = 10\<rparr>],
      answers = [],
      votes = [\<lparr>v_id = 1, v_userId = 2, v_questionId = Some 1, v_answerId = None,
                v_voteType = ''down'', v_createdAt = 15\<rparr>],
      notifications = [], posts = [], postComments = [], postLikes = [],
      answers_seq = 0, votes_seq = 1, notifications_seq = 0, postLikes_seq = 0\<rparr>"

section \<open>Accept-answer exclusivity\<close>

text \<open>
  When the answer id names an answer of the question and answer ids are unique,
  \<open>acceptAnswer\<close> leaves exactly that answer accepted for the question, points the
  question at it, and does not touch the accepted answers of any other question.
\<close>

lemma filter_key_distinct:
  "distinct (map f xs) \<Longrightarrow> x \<in> set xs \<Longrightarrow> filter (\<lambda>y. f y = f x) xs = [x]"
proof (induction xs)
  case Nil
  then show ?case by simp
next
  case (Cons y ys)
  show ?case
  proof (cases "y = x")
    case True
    from Cons.prems True have "f x \<notin> f ` set ys" by simp
    then have "\<forall>z \<in> set ys. f z \<noteq> f x" by (metis imageI)
    then have "filter (\<lambda>z. f z = f x) ys = []" by (simp add: filter_empty_conv)
    with True show ?thesis by simp
  next
    case False
    with Cons.prems have "x \<in> set ys" and "f y \<noteq> f x" and "distinct (map f ys)" by auto
    with Cons.IH show ?thesis by simp
  qed
qed

lemma accepted_answers_acceptAnswer:
  "accepted_answers (acceptAnswer d questionId answerId) questionId =
     map (\<lambda>a. a\<lparr>a_isAccepted := True\<rparr>)
       (filter (\<lambda>a. a_id a = answerId \<and> a_questionId a = questionId) (answers d))"
proof -
  have "filter (\<lambda>a. a_questionId a = questionId \<and> a_isAccepted a)
          (map (\<lambda>a. if a_id a = answerId then a\<lparr>a_isAccepted := True\<rparr> else a)
             (map (\<lambda>a. if a_questionId a = questionId then a\<lparr>a_isAccepted := False\<rparr> else a) xs))
        = map (\<lambda>a. a\<lparr>a_isAccepted := True\<rparr>)
            (filter (\<lambda>a. a_id a = answerId \<and> a_questionId a = questionId) xs)" for xs
    by (induction xs) auto
  then show ?thesis
    by (simp add: accepted_answers_def acceptAnswer_def Let_def)
qed

lemma acceptAnswer_own_answer:
  assumes "distinct (map a_id (answers d))"
    and "a \<in> set (answers d)" and "a_id a = answerId" and "a_questionId a = questionId"
  shows "accepted_answers (acceptAnswer d questionId answerId) questionId = [a\<lparr>a_isAccepted := True\<rparr>]"
proof -
  from assms(1) have inj: "inj_on a_id (set (answers d))" by (simp only: distinct_map)
  have "filter (\<lambda>b. a_id b = answerId \<and> a_questionId b = questionId) (answers d)
        = filter (\<lambda>b. a_id b = a_id a) (answers d)"
  proof (rule filter_cong [OF refl])
    fix b assume b: "b \<in> set (answers d)"
    show "(a_id b = answerId \<and> a_questionId b = questionId) = (a_id b = a_id a)"
    proof (cases "a_id b = a_id a")
      case True
      from inj True b assms(2) have "b = a" by (rule inj_onD)
      with assms(3,4) show ?thesis by simp
    next
      case False
      with assms(3) show ?thesis by simp
    qed
  qed
  also have "\<dots> = [a]" using assms(1,2) by (rule filter_key_distinct)
  finally show ?thesis by (simp only: accepted_answers_acceptAnswer list.map)
qed

lemma acceptAnswer_other_questions:
  assumes "\<forall>a \<in> set (answers d). a_id a = answerId \<longrightarrow> a_questionId a = questionId"
    and "other \<noteq> questionId"
  shows "accepted_answers (acceptAnswer d questionId answerId) other = accepted_answers d other"
proof -
  have "\<forall>a \<in> set xs. a_id a = answerId \<longrightarrow> a_questionId a = questionId \<Longrightarrow>
        filter (\<lambda>a. a_questionId a = other \<and> a_isAccepted a)
          (map (\<lambda>a. if a_id a = answerId then a\<lparr>a_isAccepted := True\<rparr> else a)
             (map (\<lambda>a. if a_questionId a = questionId then a\<lparr>a_isAccepted := False\<rparr> else a) xs))
        = filter (\<lambda>a. a_questionId a = other \<and> a_isAccepted a) xs" for xs
    using assms(2) by (induction xs) auto
  with assms(1) show ?thesis
    by (simp add: accepted_answers_def acceptAnswer_def Let_def)
qed

lemma questions_acceptAnswer:
  "questions (acceptAnswer d questionId answerId) =
     map (\<lambda>q. if q_id q = questionId then q\<lparr>q_acceptedAnswerId := Some answerId\<rparr> else q)
       (questions d)"
  by (simp add: acceptAnswer_def Let_def)

lemma acceptAnswer_pointer:
  assumes "q \<in> set (questions (acceptAnswer d questionId answerId))" and "q_id q = questionId"
  shows "q_acceptedAnswerId q = Some answerId"
proof -
  from assms(1) obtain x where x: "x \<in> set (questions d)"
    and q: "q = (if q_id x = questionId then x\<lparr>q_acceptedAnswerId := Some answerId\<rparr> else x)"
    unfolding questions_acceptAnswer by auto
  show ?thesis
  proof (cases "q_id x = questionId")
    case True
    with q show ?thesis by simp
  next
    case False
    with q assms(2) show ?thesis by simp
  qed
qed

text \<open>
  C1. After any \<open>acceptAnswer(questionId, answerId)\<close>, every question should have at most
  one accepted answer, and the question's \<open>acceptedAnswerId\<close> should be that answer or
  unset, also when \<open>answerId\<close> names an answer of a different question. The source sets
  the flag on the answer with the given id whatever its question is. In the example
  forum the author of question 1 accepts answer 21, an answer of question 2: the request
  succeeds, question 2 then has the two accepted answers 20 and 21, and question 1 has
  no accepted answer while its \<open>acceptedAnswerId\<close> is 21.
\<close>

theorem accept_answer_of_other_question:
  "let d = fst (post_accept forum_db 100 (Some 1) 1 21)
     in snd (post_accept forum_db 100 (Some 1) 1 21) = AcceptOk
        \<and> map a_id (accepted_answers d 2) = [20, 21]
        \<and> accepted_answers d 1 = []
        \<and> map (\<lambda>q. (q_id q, q_acceptedAnswerId q)) (questions d) = [(1, Some 21), (2, Some 20), (3, None)]"
  by (simp add: forum_db_def forum_users_def post_accept_def getQuestion_def acceptAnswer_def accepted_answers_def author_of_def createNotification_def Let_def)

section \<open>Order of the answers of a question\<close>

text \<open>
  \<open>getAnswersByQuestionId\<close> returns the answers accepted first, then by descending votes,
  then by ascending creation time; \<open>getQuestion\<close> returns them newest first.
\<close>

lemma sorted_getAnswersByQuestionId:
  "sorted (map (\<lambda>a. answer_order_key (aw_answer a)) (getAnswersByQuestionId d questionId))"
  by (simp add: getAnswersByQuestionId_def o_def)

lemma sorted_getQuestion:
  "getQuestion d ident = Some q \<Longrightarrow> sorted (map (\<lambda>a. - a_createdAt (aw_answer a)) (qw_answers q))"
  by (auto simp: getQuestion_def Let_def o_def split: option.splits)

text \<open>
  C4. The answer list of \<open>getQuestion(id)\<close> should be ordered accepted first, then by
  descending vote count, then by ascending creation time. The query of \<open>getQuestion\<close>
  orders by creation time, descending, and nothing else. In the example forum the
  answers of question 2 come back as 21, 20: the accepted answer 20 is last, and the
  list is not sorted by the stated order, while \<open>getAnswersByQuestionId\<close> returns 20, 21.
\<close>

theorem getQuestion_answers_newest_first:
  "map_option (\<lambda>q. map (\<lambda>a. a_id (aw_answer a)) (qw_answers q)) (getQuestion forum_db 2)
     = Some [21, 20]
   \<and> map_option (\<lambda>q. map (\<lambda>a. a_isAccepted (aw_answer a)) (qw_answers q)) (getQuestion forum_db 2)
     = Some [False, True]
   \<and> map_option (\<lambda>q. sorted (map (\<lambda>a. answer_order_key (aw_answer a)) (qw_answers q)))
        (getQuestion forum_db 2) = Some False
   \<and> map (\<lambda>a. a_id (aw_answer a)) (getAnswersByQuestionId forum_db 2) = [20, 21]"
  by (simp add: getQuestion_def getAnswersByQuestionId_def answer_order_key_def forum_db_def
        forum_users_def author_of_def)

section \<open>Likes\<close>

lemma unlikePost_rows:
  "filter (\<lambda>l. pl_postId l = postId \<and> pl_userId l = userId) (postLikes d) = []
   \<Longrightarrow> postLikes (unlikePost d postId userId) = postLikes d"
  by (simp add: unlikePost_def Let_def filter_empty_conv filter_id_conv)

lemma unlikePost_posts:
  "posts (unlikePost d postId userId) =
     map (\<lambda>p. if p_id p = postId then p\<lparr>p_likes := p_likes p - 1\<rparr> else p) (posts d)"
  by (simp add: unlikePost_def Let_def)

lemma unlikePost_repeat_rows:
  "filter (\<lambda>l. pl_postId l = postId \<and> pl_userId l = userId) (postLikes d) = []
   \<Longrightarrow> postLikes (((\<lambda>d. unlikePost d postId userId) ^^ n) d) = postLikes d"
  by (induction n) (simp_all add: unlikePost_rows)

lemma unlikePost_repeat_posts:
  "posts (((\<lambda>d. unlikePost d postId userId) ^^ n) d) =
     map (\<lambda>p. if p_id p = postId then p\<lparr>p_likes := p_likes p - int n\<rparr> else p) (posts d)"
proof (induction n)
  case 0
  show ?case by (simp add: map_idI)
next
  case (Suc n)
  have "(\<lambda>p. if p_id p = postId then p\<lparr>p_likes := p_likes p - 1\<rparr> else p)
          \<circ> (\<lambda>p. if p_id p = postId then p\<lparr>p_likes := p_likes p - int n\<rparr> else p)
        = (\<lambda>p. if p_id p = postId then p\<lparr>p_likes := p_likes p - int (Suc n)\<rparr> else p)"
    by (rule ext) simp
  with Suc show ?case by (simp add: unlikePost_posts)
qed

text \<open>
  C10. When the pair has no like row, \<open>unlikePost(postId, userId)\<close> leaves the like rows
  as they are and still decrements the stored counter of the post by one; after \<open>n\<close>
  such calls the rows are still unchanged and the counter is \<open>n\<close> lower, so it goes
  below zero and differs from the number of like rows.
\<close>

theorem unlikePost_without_like:
  assumes "filter (\<lambda>l. pl_postId l = postId \<and> pl_userId l = userId) (postLikes d) = []"
  shows "postLikes (unlikePost d postId userId) = postLikes d
         \<and> posts (unlikePost d postId userId) =
             map (\<lambda>p. if p_id p = postId then p\<lparr>p_likes := p_likes p - 1\<rparr> else p) (posts d)
         \<and> postLikes (((\<lambda>d. unlikePost d postId userId) ^^ n) d) = postLikes d
         \<and> posts (((\<lambda>d. unlikePost d postId userId) ^^ n) d) =
             map (\<lambda>p. if p_id p = postId then p\<lparr>p_likes := p_likes p - int n\<rparr> else p) (posts d)"
  using assms
  by (simp only: unlikePost_rows unlikePost_posts unlikePost_repeat_rows unlikePost_repeat_posts simp_thms)

theorem unlikePost_without_like_witness:
  "filter (\<lambda>l. pl_postId l = 1 \<and> pl_userId l = 3) (postLikes community_db) = []
   \<and> map p_likes (posts community_db) = [1]
   \<and> map p_likes (posts (unlikePost community_db 1 3)) = [0]
   \<and> map p_likes (posts (((\<lambda>d. unlikePost d 1 3) ^^ 2) community_db)) = [-1]
   \<and> count_likes (((\<lambda>d. unlikePost d 1 3) ^^ 2) community_db) 1 = 1"
proof -
  have h: "filter (\<lambda>l. pl_postId l = 1 \<and> pl_userId l = 3) (postLikes community_db) = []"
    by (simp add: community_db_def)
  from unlikePost_without_like [OF h, of 2] h show ?thesis
    by (simp add: count_likes_def) (simp add: community_db_def)
qed

lemma likePost_unliked:
  assumes "\<not> isPostLikedByUser d postId userId"
  shows "likePost d now postId userId =
           d\<lparr>postLikes := postLikes d @ [\<lparr>pl_id = postLikes_seq d + 1, pl_postId = postId,
                                          pl_userId = userId, pl_createdAt = now\<rparr>],
             postLikes_seq := postLikes_seq d + 1,
             posts := map (\<lambda>p. if p_id p = postId then p\<lparr>p_likes := p_likes p + 1\<rparr> else p) (posts d)\<rparr>"
proof -
  from assms have "filter (\<lambda>l. pl_postId l = postId \<and> pl_userId l = userId) (postLikes d) = []"
    by (cases "filter (\<lambda>l. pl_postId l = postId \<and> pl_userId l = userId) (postLikes d)")
       (simp_all add: isPostLikedByUser_def)
  then show ?thesis by (simp add: likePost_def Let_def)
qed

lemma isPostLikedByUser_likePost:
  "isPostLikedByUser (likePost d now postId userId) postId userId"
proof (cases "isPostLikedByUser d postId userId")
  case True
  then have "filter (\<lambda>l. pl_postId l = postId \<and> pl_userId l = userId) (postLikes d) \<noteq> []"
    by (auto simp: isPostLikedByUser_def)
  with True show ?thesis by (simp add: likePost_def Let_def)
next
  case False
  then have e: "filter (\<lambda>l. pl_postId l = postId \<and> pl_userId l = userId) (postLikes d) = []"
    by (cases "filter (\<lambda>l. pl_postId l = postId \<and> pl_userId l = userId) (postLikes d)")
       (simp_all add: isPostLikedByUser_def)
  show ?thesis
    unfolding likePost_unliked [OF False] by (simp add: isPostLikedByUser_def e)
qed

text \<open>
  C8. Invoking the like toggle twice in a row returns the post's like count to its
  original value and leaves no like row for the pair. This holds when the pair has no
  like row before the first toggle: the post rows and the like rows are then exactly
  what they were.
\<close>

theorem like_toggle_twice:
  assumes "\<not> isPostLikedByUser d postId userId"
  shows "posts (fst (post_like (fst (post_like d now (Some userId) postId)) now' (Some userId) postId))
           = posts d
         \<and> postLikes (fst (post_like (fst (post_like d now (Some userId) postId)) now' (Some userId) postId))
           = postLikes d
         \<and> \<not> isPostLikedByUser
               (fst (post_like (fst (post_like d now (Some userId) postId)) now' (Some userId) postId))
               postId userId"
proof -
  from assms have e: "filter (\<lambda>l. pl_postId l = postId \<and> pl_userId l = userId) (postLikes d) = []"
    by (cases "filter (\<lambda>l. pl_postId l = postId \<and> pl_userId l = userId) (postLikes d)")
       (simp_all add: isPostLikedByUser_def)
  then have keep: "filter (\<lambda>l. \<not> (pl_postId l = postId \<and> pl_userId l = userId)) (postLikes d) = postLikes d"
    by (simp add: filter_empty_conv filter_id_conv)
  have step1: "fst (post_like d now (Some userId) postId) = likePost d now postId userId"
    using assms by (simp add: post_like_def)
  have step2: "fst (post_like (likePost d now postId userId) now' (Some userId) postId)
                  = unlikePost (likePost d now postId userId) postId userId"
    by (simp add: post_like_def isPostLikedByUser_likePost)
  have undo: "(\<lambda>p. if p_id p = postId then p\<lparr>p_likes := p_likes p - 1\<rparr> else p)
                \<circ> (\<lambda>p. if p_id p = postId then p\<lparr>p_likes := p_likes p + 1\<rparr> else p) = id"
    by (rule ext) simp
  have p: "posts (unlikePost (likePost d now postId userId) postId userId) = posts d"
    unfolding likePost_unliked [OF assms] by (simp add: unlikePost_def Let_def undo)
  have l: "postLikes (unlikePost (likePost d now postId userId) postId userId) = postLikes d"
    unfolding likePost_unliked [OF assms] using keep by (simp add: unlikePost_def Let_def)
  from l assms have "\<not> isPostLikedByUser (unlikePost (likePost d now postId userId) postId userId) postId userId"
    by (simp add: isPostLikedByUser_def)
  with p l show ?thesis by (simp only: step1 step2 simp_thms)
qed

theorem like_toggle_twice_witness:
  "\<not> isPostLikedByUser community_db 1 3
   \<and> map p_likes (posts (fst (post_like (fst (post_like community_db 40 (Some 3) 1)) 41 (Some 3) 1))) = [1]
   \<and> map pl_id (postLikes (fst (post_like (fst (post_like community_db 40 (Some 3) 1)) 41 (Some 3) 1))) = [1]"
proof -
  have h: "\<not> isPostLikedByUser community_db 1 3"
    by (simp add: community_db_def isPostLikedByUser_def)
  from like_toggle_twice [OF h, of 40 41] h show ?thesis
    by (simp add: community_db_def)
qed

text \<open>
  When the user has already liked the post, the first toggle removes the like and the
  second one inserts a new row: in the example feed, user 1 toggles post 1 twice and
  the pair then has the like row 2.
\<close>

theorem like_toggle_twice_when_liked:
  "isPostLikedByUser community_db 1 1
   \<and> map pl_id (filter (\<lambda>l. pl_postId l = 1 \<and> pl_userId l = 1)
        (postLikes (fst (post_like (fst (post_like community_db 40 (Some 1) 1)) 41 (Some 1) 1)))) = [2]"
  by (simp add: community_db_def post_like_def isPostLikedByUser_def likePost_def unlikePost_def Let_def)

section \<open>Cascade of deleteUser\<close>

lemma answers_deleteUser:
  "answers (deleteUser d ident) =
     filter (\<lambda>a. a_authorId a \<noteq> ident)
       (filter (\<lambda>a. a_questionId a \<notin> q_id ` {q \<in> set (questions d). q_authorId q = ident})
          (answers d))"
proof (cases "filter (\<lambda>q. q_authorId q = ident) (questions d) = []")
  case True
  then have e: "{q \<in> set (questions d). q_authorId q = ident} = {}"
    by (auto simp: filter_empty_conv)
  have "answers (deleteUser d ident) = filter (\<lambda>a. a_authorId a \<noteq> ident) (answers d)"
    using True by (simp add: deleteUser_def deleteUser_statements_def Let_def)
  then show ?thesis by (simp add: e)
next
  case False
  have "set (map q_id (filter (\<lambda>q. q_authorId q = ident) (questions d)))
          = q_id ` {q \<in> set (questions d). q_authorId q = ident}"
    by simp
  with False show ?thesis
    by (simp add: deleteUser_def deleteUser_statements_def Let_def del: set_map set_filter)
qed

text \<open>
  C5. \<open>deleteUser(id)\<close> issues its deletions in the dependency order: the answers to the
  user's questions (when the user has questions), the user's answers, the user's
  questions, votes, notifications, post likes, post comments, posts, and last the user
  row. After it no answer, question, vote, notification, post like, post comment or
  post refers to the id as its author or user, no answer to a question of the user is
  left, and the user row is gone.
\<close>

theorem deleteUser_cascade:
  "deleteUser_statements d ident =
     (if filter (\<lambda>q. q_authorId q = ident) (questions d) = [] then []
      else [DeleteAnswersOfQuestions (map q_id (filter (\<lambda>q. q_authorId q = ident) (questions d)))])
     @ [DeleteAnswersByAuthor ident, DeleteQuestionsByAuthor ident, DeleteVotesByUser ident,
        DeleteNotificationsByUser ident, DeletePostLikesByUser ident,
        DeletePostCommentsByAuthor ident, DeletePostsByAuthor ident, DeleteUserRow ident]
   \<and> filter (\<lambda>a. a_questionId a \<in> q_id ` {q \<in> set (questions d). q_authorId q = ident})
       (answers (deleteUser d ident)) = []
   \<and> filter (\<lambda>a. a_authorId a = ident) (answers (deleteUser d ident)) = []
   \<and> filter (\<lambda>q. q_authorId q = ident) (questions (deleteUser d ident)) = []
   \<and> filter (\<lambda>v. v_userId v = ident) (votes (deleteUser d ident)) = []
   \<and> filter (\<lambda>n. n_userId n = ident) (notifications (deleteUser d ident)) = []
   \<and> filter (\<lambda>l. pl_userId l = ident) (postLikes (deleteUser d ident)) = []
   \<and> filter (\<lambda>c. pc_authorId c = ident) (postComments (deleteUser d ident)) = []
   \<and> filter (\<lambda>p. p_authorId p = ident) (posts (deleteUser d ident)) = []
   \<and> filter (\<lambda>u. u_id u = ident) (users (deleteUser d ident)) = []"
proof -
  have stmts: "deleteUser_statements d ident =
     (if filter (\<lambda>q. q_authorId q = ident) (questions d) = [] then []
      else [DeleteAnswersOfQuestions (map q_id (filter (\<lambda>q. q_authorId q = ident) (questions d)))])
     @ [DeleteAnswersByAuthor ident, DeleteQuestionsByAuthor ident, DeleteVotesByUser ident,
        DeleteNotificationsByUser ident, DeletePostLikesByUser ident,
        DeletePostCommentsByAuthor ident, DeletePostsByAuthor ident, DeleteUserRow ident]"
    by (simp add: deleteUser_statements_def Let_def)
  have a1: "filter (\<lambda>a. a_questionId a \<in> q_id ` {q \<in> set (questions d). q_authorId q = ident})
       (answers (deleteUser d ident)) = []"
    unfolding answers_deleteUser by (auto simp: filter_empty_conv)
  have a2: "filter (\<lambda>a. a_authorId a = ident) (answers (deleteUser d ident)) = []"
    unfolding answers_deleteUser by (simp add: filter_empty_conv)
  have rest: "filter (\<lambda>q. q_authorId q = ident) (questions (deleteUser d ident)) = []
   \<and> filter (\<lambda>v. v_userId v = ident) (votes (deleteUser d ident)) = []
   \<and> filter (\<lambda>n. n_userId n = ident) (notifications (deleteUser d ident)) = []
   \<and> filter (\<lambda>l. pl_userId l = ident) (postLikes (deleteUser d ident)) = []
   \<and> filter (\<lambda>c. pc_authorId c = ident) (postComments (deleteUser d ident)) = []
   \<and> filter (\<lambda>p. p_authorId p = ident) (posts (deleteUser d ident)) = []
   \<and> filter (\<lambda>u. u_id u = ident) (users (deleteUser d ident)) = []"
    by (simp add: deleteUser_def deleteUser_statements_def Let_def filter_empty_conv)
  from stmts a1 a2 rest show ?thesis by (simp only: simp_thms)
qed

theorem deleteUser_cascade_witness:
  "deleteUser_statements forum_db 3 =
     [DeleteAnswersOfQuestions [3], DeleteAnswersByAuthor 3, DeleteQuestionsByAuthor 3,
      DeleteVotesByUser 3, DeleteNotificationsByUser 3, DeletePostLikesByUser 3,
      DeletePostCommentsByAuthor 3, DeletePostsByAuthor 3, DeleteUserRow 3]
   \<and> map a_id (answers (deleteUser forum_db 3)) = [10, 20]
   \<and> map q_id (questions (deleteUser forum_db 3)) = [1, 2]
   \<and> map u_id (users (deleteUser forum_db 3)) = [1, 2]"
  using deleteUser_cascade [of forum_db 3]
  by (simp add: deleteUser_def deleteUser_statements_def forum_db_def forum_users_def)

section \<open>The unanswered filter\<close>






section \<open>Vote tallies\<close>

text \<open>
  \<open>updateVoteCount\<close> leaves the vote rows alone and overwrites the stored tally of each
  target it is given by a truthy id with the net votes of the rows.
\<close>

lemma votes_updateVoteCount [simp]:
  "votes (updateVoteCount d questionId answerId voteType) = votes d"
  by (simp add: updateVoteCount_def Let_def split: option.splits)

lemma votes_seq_updateVoteCount [simp]:
  "votes_seq (updateVoteCount d questionId answerId voteType) = votes_seq d"
  by (simp add: updateVoteCount_def Let_def split: option.splits)

lemma questions_updateVoteCount:
  "questions (updateVoteCount d questionId answerId voteType) =
     (case questionId of
        None \<Rightarrow> questions d
      | Some qid \<Rightarrow>
          if qid = 0 then questions d
          else map (\<lambda>q. if q_id q = qid then q\<lparr>q_votes := net_question_votes (votes d) qid\<rparr> else q)
                 (questions d))"
  by (simp add: updateVoteCount_def Let_def net_question_votes_def count_question_votes_def
        split: option.splits)

lemma answers_updateVoteCount:
  "answers (updateVoteCount d questionId answerId voteType) =
     (case answerId of
        None \<Rightarrow> answers d
      | Some aid \<Rightarrow>
          if aid = 0 then answers d
          else map (\<lambda>a. if a_id a = aid then a\<lparr>a_votes := net_answer_votes (votes d) aid\<rparr> else a)
                 (answers d))"
  by (simp add: updateVoteCount_def Let_def net_answer_votes_def count_answer_votes_def
        split: option.splits)

lemma list_all_question_votes:
  "list_all (\<lambda>q. q_votes q = n)
     (filter (\<lambda>q. q_id q = qid) (map (\<lambda>q. if q_id q = qid then q\<lparr>q_votes := n\<rparr> else q) qs))"
  by (induction qs) simp_all

lemma list_all_answer_votes:
  "list_all (\<lambda>a. a_votes a = n)
     (filter (\<lambda>a. a_id a = aid) (map (\<lambda>a. if a_id a = aid then a\<lparr>a_votes := n\<rparr> else a) xs))"
  by (induction xs) simp_all

lemma updateVoteCount_in_sync:
  assumes "tgt \<in> set (targets_of v)"
  shows "tally_in_sync (updateVoteCount d (v_questionId v) (v_answerId v) voteType) tgt"
proof (cases tgt)
  case (OnQuestion qid)
  with assms have "v_questionId v = Some qid" and "qid \<noteq> 0"
    by (auto simp: targets_of_def split: option.splits if_splits)
  then show ?thesis
    by (simp add: OnQuestion questions_updateVoteCount list_all_question_votes)
next
  case (OnAnswer aid)
  with assms have "v_answerId v = Some aid" and "aid \<noteq> 0"
    by (auto simp: targets_of_def split: option.splits if_splits)
  then show ?thesis
    by (simp add: OnAnswer answers_updateVoteCount list_all_answer_votes)
qed

text \<open>
  After each of the three vote operations, the stored \<open>votes\<close> field of the mutated target
  equals the number of up rows minus the number of down rows for that target: after
  \<open>createVote\<close> for the targets of the inserted row, after \<open>updateVote\<close> for the targets of
  the updated row, after \<open>deleteVote\<close> for the targets of the deleted row. A target is
  referred to by a truthy id; the keys of the substrate start at 1.
\<close>

lemma tally_recomputed:
  "(tgt \<in> set (targets_of (snd (createVote d now vt)))
      \<longrightarrow> tally_in_sync (fst (createVote d now vt)) tgt)
   \<and> (updateVote d ident voteType = Inr (d', updatedVote) \<and> tgt \<in> set (targets_of updatedVote)
      \<longrightarrow> tally_in_sync d' tgt)
   \<and> (first_row (filter (\<lambda>v. v_id v = ident) (votes d)) = Some deleted
        \<and> tgt \<in> set (targets_of deleted)
      \<longrightarrow> tally_in_sync (deleteVote d ident) tgt)"
proof (intro conjI impI)
  assume t: "tgt \<in> set (targets_of (snd (createVote d now vt)))"
  let ?nv = "snd (createVote d now vt)"
  have "fst (createVote d now vt) =
          updateVoteCount (d\<lparr>votes := votes d @ [?nv], votes_seq := votes_seq d + 1\<rparr>)
            (v_questionId ?nv) (v_answerId ?nv) (iv_voteType vt)"
    by (simp add: createVote_def Let_def)
  with t show "tally_in_sync (fst (createVote d now vt)) tgt"
    by (simp only: updateVoteCount_in_sync)
next
  assume "updateVote d ident voteType = Inr (d', updatedVote) \<and> tgt \<in> set (targets_of updatedVote)"
  then have u: "updateVote d ident voteType = Inr (d', updatedVote)"
    and t: "tgt \<in> set (targets_of updatedVote)" by simp_all
  from u obtain d1 where "d' = updateVoteCount d1 (v_questionId updatedVote) (v_answerId updatedVote) voteType"
    by (auto simp: updateVote_def Let_def split: option.splits)
  with t show "tally_in_sync d' tgt" by (simp only: updateVoteCount_in_sync)
next
  assume "first_row (filter (\<lambda>v. v_id v = ident) (votes d)) = Some deleted
            \<and> tgt \<in> set (targets_of deleted)"
  then have f: "first_row (filter (\<lambda>v. v_id v = ident) (votes d)) = Some deleted"
    and t: "tgt \<in> set (targets_of deleted)" by simp_all
  from f obtain d1 vt' where "deleteVote d ident = updateVoteCount d1 (v_questionId deleted) (v_answerId deleted) vt'"
    by (simp add: deleteVote_def Let_def)
  with t show "tally_in_sync (deleteVote d ident) tgt" by (simp only: updateVoteCount_in_sync)
qed

lemma tally_recomputed_example:
  "OnQuestion 1 \<in> set (targets_of (snd (createVote voting_db 50
       \<lparr>iv_userId = 3, iv_questionId = Some 1, iv_answerId = None, iv_voteType = ''up''\<rparr>)))
   \<and> stored_tally (fst (createVote voting_db 50
       \<lparr>iv_userId = 3, iv_questionId = Some 1, iv_answerId = None, iv_voteType = ''up''\<rparr>))
       (OnQuestion 1) = [0]
   \<and> map_sum id (\<lambda>(d', uv). (stored_tally d' (OnQuestion 1), targets_of uv))
       (updateVote voting_db 1 ''up'') = Inr ([1], [OnQuestion 1])
   \<and> map_option targets_of (first_row (filter (\<lambda>v. v_id v = 1) (votes voting_db)))
       = Some [OnQuestion 1]
   \<and> stored_tally (deleteVote voting_db 1) (OnQuestion 1) = [0]"
proof -
  let ?iv = "\<lparr>iv_userId = 3, iv_questionId = Some 1, iv_answerId = None, iv_voteType = ''up''\<rparr>"
  let ?old = "\<lparr>v_id = 1, v_userId = 2, v_questionId = Some 1, v_answerId = None,
               v_voteType = ''down'', v_createdAt = 15\<rparr>"
  have c: "OnQuestion 1 \<in> set (targets_of (snd (createVote voting_db 50 ?iv)))"
    by (simp add: createVote_def targets_of_def Let_def)
  obtain d' uv where u: "updateVote voting_db 1 ''up'' = Inr (d', uv)"
    and uv: "targets_of uv = [OnQuestion 1]"
    and d': "stored_tally d' (OnQuestion 1) = [1]"
    by (simp add: voting_db_def updateVote_def updateVoteCount_def count_question_votes_def
          targets_of_def Let_def)
  have f: "first_row (filter (\<lambda>v. v_id v = 1) (votes voting_db)) = Some ?old"
    by (simp add: voting_db_def)
  have t: "OnQuestion 1 \<in> set (targets_of ?old)" by (simp add: targets_of_def)
  have sc: "stored_tally (fst (createVote voting_db 50 ?iv)) (OnQuestion 1) = [0]"
    by (simp add: voting_db_def createVote_def updateVoteCount_def count_question_votes_def Let_def)
  have sd: "stored_tally (deleteVote voting_db 1) (OnQuestion 1) = [0]"
    by (simp add: voting_db_def deleteVote_def updateVoteCount_def count_question_votes_def Let_def)
  from tally_recomputed [of "OnQuestion 1" voting_db 50 ?iv 1 "''up''" d' uv ?old] c u uv f t
  have "tally_in_sync (fst (createVote voting_db 50 ?iv)) (OnQuestion 1)
        \<and> tally_in_sync d' (OnQuestion 1)
        \<and> tally_in_sync (deleteVote voting_db 1) (OnQuestion 1)"
    by simp
  with c u uv d' f sc sd show ?thesis by (simp add: targets_of_def)
qed

text \<open>
  C3. After every vote mutation (an insert, a flip of the vote type, or the deletion of a
  vote), the stored \<open>votes\<close> field of the target should equal the number of up rows minus
  the number of down rows for the target. \<open>deleteVote\<close> recomputes the tally after its
  delete; \<open>deleteUser\<close> deletes the vote rows of the user and recomputes nothing. In the
  example, deleting user 2 removes the only vote on question 1, whose net votes are then
  0, and the stored tally stays at -1; removing the same vote with \<open>deleteVote\<close> sets the
  tally to 0.
\<close>

theorem deleteUser_leaves_stale_tally:
  "map (\<lambda>v. (v_userId v, v_questionId v, v_voteType v)) (votes voting_db)
     = [(2, Some 1, ''down'')]
   \<and> votes (deleteUser voting_db 2) = []
   \<and> map q_votes (filter (\<lambda>q. q_id q = 1) (questions (deleteUser voting_db 2))) = [- 1]
   \<and> net_question_votes (votes (deleteUser voting_db 2)) 1 = 0
   \<and> votes (deleteVote voting_db 1) = []
   \<and> map q_votes (filter (\<lambda>q. q_id q = 1) (questions (deleteVote voting_db 1))) = [0]"
  by (simp add: voting_db_def forum_users_def deleteUser_def deleteUser_statements_def
        deleteVote_def updateVoteCount_def count_question_votes_def net_question_votes_def
        Let_def)

section \<open>Casting the same vote twice\<close>

lemma getVote_target:
  "target_id tgt \<noteq> 0 \<Longrightarrow>
   getVote d userId (body_questionId tgt) (body_answerId tgt) = first_row (votes_of_pair d userId tgt)"
  by (cases tgt) (simp_all add: getVote_def)

lemma or_null_target:
  "target_id tgt \<noteq> 0 \<Longrightarrow> or_null (body_questionId tgt) = body_questionId tgt
                             \<and> or_null (body_answerId tgt) = body_answerId tgt"
  by (cases tgt) (simp_all add: or_null_def)

lemma cast_vote_new:
  assumes "voteType = ''up'' \<or> voteType = ''down''" and "target_id tgt \<noteq> 0"
    and "votes_of_pair d userId tgt = []"
  shows "cast_vote d now userId tgt voteType =
           updateVoteCount
             (d\<lparr>votes := votes d @ [new_vote d now userId tgt voteType], votes_seq := votes_seq d + 1\<rparr>)
             (body_questionId tgt) (body_answerId tgt) voteType"
  using assms
  by (auto simp: cast_vote_def post_vote_def getVote_target or_null_target
        insertVoteSchema_parse_def createVote_def Let_def new_vote_def)

lemma cast_vote_same:
  assumes "votes_of_pair d userId tgt = v # rest" and "v_voteType v = voteType"
    and "target_id tgt \<noteq> 0"
  shows "cast_vote d now userId tgt voteType = deleteVote d (v_id v)"
  using assms by (simp add: cast_vote_def post_vote_def getVote_target)

lemma votes_of_pair_append:
  "votes_of_pair (d\<lparr>votes := votes d @ [new_vote d now userId tgt voteType]\<rparr>) userId tgt
     = votes_of_pair d userId tgt @ [new_vote d now userId tgt voteType]"
  by (cases tgt) (simp_all add: new_vote_def)

lemma votes_of_pair_cong:
  "votes d1 = votes d2 \<Longrightarrow> votes_of_pair d1 userId tgt = votes_of_pair d2 userId tgt"
  by (cases tgt) simp_all

lemma deleteVote_new:
  assumes "votes_seq_ok d" and "votes d1 = votes d @ [nv]" and "v_id nv = votes_seq d + 1"
  shows "deleteVote d1 (v_id nv) =
           updateVoteCount (d1\<lparr>votes := votes d\<rparr>) (v_questionId nv) (v_answerId nv)
             (if v_voteType nv = ''up'' then ''down'' else ''up'')"
proof -
  from assms(1,3) have old: "\<forall>v \<in> set (votes d). v_id v \<noteq> v_id nv"
    by (auto simp: votes_seq_ok_def list_all_iff)
  then have "filter (\<lambda>v. v_id v = v_id nv) (votes d) = []"
    and "filter (\<lambda>v. v_id v \<noteq> v_id nv) (votes d) = votes d"
    by (simp_all add: filter_empty_conv filter_id_conv)
  with assms(2) show ?thesis by (simp add: deleteVote_def Let_def)
qed

lemma question_votes_restored:
  "list_all (\<lambda>q. q_votes q = n) (filter (\<lambda>q. q_id q = qid) qs) \<Longrightarrow>
   map ((\<lambda>q. if q_id q = qid then q\<lparr>q_votes := n\<rparr> else q)
        \<circ> (\<lambda>q. if q_id q = qid then q\<lparr>q_votes := m\<rparr> else q)) qs = qs"
  by (induction qs) auto

lemma answer_votes_restored:
  "list_all (\<lambda>a. a_votes a = n) (filter (\<lambda>a. a_id a = aid) xs) \<Longrightarrow>
   map ((\<lambda>a. if a_id a = aid then a\<lparr>a_votes := n\<rparr> else a)
        \<circ> (\<lambda>a. if a_id a = aid then a\<lparr>a_votes := m\<rparr> else a)) xs = xs"
  by (induction xs) auto

lemma cast_vote_twice:
  assumes vt: "voteType = ''up'' \<or> voteType = ''down''"
    and ident: "target_id tgt \<noteq> 0"
    and none: "votes_of_pair d userId tgt = []"
    and seq: "votes_seq_ok d"
  shows "cast_vote (cast_vote d now userId tgt voteType) now' userId tgt voteType =
           updateVoteCount
             ((updateVoteCount
                 (d\<lparr>votes := votes d @ [new_vote d now userId tgt voteType],
                    votes_seq := votes_seq d + 1\<rparr>)
                 (body_questionId tgt) (body_answerId tgt) voteType)\<lparr>votes := votes d\<rparr>)
             (body_questionId tgt) (body_answerId tgt)
             (if voteType = ''up'' then ''down'' else ''up'')"
proof -
  let ?nv = "new_vote d now userId tgt voteType"
  let ?d1 = "cast_vote d now userId tgt voteType"
  have d1: "?d1 = updateVoteCount (d\<lparr>votes := votes d @ [?nv], votes_seq := votes_seq d + 1\<rparr>)
                    (body_questionId tgt) (body_answerId tgt) voteType"
    using vt ident none by (rule cast_vote_new)
  then have v1: "votes ?d1 = votes d @ [?nv]" by simp
  then have "votes ?d1 = votes (d\<lparr>votes := votes d @ [?nv]\<rparr>)" by simp
  then have "votes_of_pair ?d1 userId tgt = votes_of_pair (d\<lparr>votes := votes d @ [?nv]\<rparr>) userId tgt"
    by (rule votes_of_pair_cong)
  with none have p1: "votes_of_pair ?d1 userId tgt = ?nv # []"
    by (simp add: votes_of_pair_append)
  have t: "v_voteType ?nv = voteType" by (simp add: new_vote_def)
  from p1 t ident have "cast_vote ?d1 now' userId tgt voteType = deleteVote ?d1 (v_id ?nv)"
    by (rule cast_vote_same)
  also have "\<dots> = updateVoteCount (?d1\<lparr>votes := votes d\<rparr>) (v_questionId ?nv) (v_answerId ?nv)
                     (if v_voteType ?nv = ''up'' then ''down'' else ''up'')"
    using seq v1 by (rule deleteVote_new) (simp add: new_vote_def)
  finally show ?thesis by (simp add: d1 new_vote_def)
qed

text \<open>
  C2. Casting the same vote type twice in a row leaves no vote row for the user and the
  target and returns the stored tally of the target to its value before the first
  cast. This holds when the user has no vote on the target before the first cast and
  the stored tally agrees with the vote rows then (and the keys of the vote rows are
  within the sequence): the first cast inserts a row, the second finds and deletes it,
  and the vote, question and answer tables are exactly what they were.
\<close>

theorem vote_toggle_twice:
  assumes vt: "voteType = ''up'' \<or> voteType = ''down''"
    and ident: "target_id tgt \<noteq> 0"
    and none: "votes_of_pair d userId tgt = []"
    and sync: "tally_in_sync d tgt"
    and seq: "votes_seq_ok d"
  shows "votes_of_pair (cast_vote (cast_vote d now userId tgt voteType) now' userId tgt voteType)
           userId tgt = []
         \<and> stored_tally (cast_vote (cast_vote d now userId tgt voteType) now' userId tgt voteType) tgt
             = stored_tally d tgt
         \<and> votes (cast_vote (cast_vote d now userId tgt voteType) now' userId tgt voteType) = votes d
         \<and> questions (cast_vote (cast_vote d now userId tgt voteType) now' userId tgt voteType)
             = questions d
         \<and> answers (cast_vote (cast_vote d now userId tgt voteType) now' userId tgt voteType)
             = answers d"
proof -
  let ?d2 = "cast_vote (cast_vote d now userId tgt voteType) now' userId tgt voteType"
  note d2 = cast_vote_twice [OF vt ident none seq, of now now']
  have v: "votes ?d2 = votes d" by (simp add: d2)
  have qa: "questions ?d2 = questions d \<and> answers ?d2 = answers d"
  proof (cases tgt)
    case (OnQuestion qid)
    with ident sync d2 show ?thesis
      by (simp add: questions_updateVoteCount answers_updateVoteCount question_votes_restored)
  next
    case (OnAnswer aid)
    with ident sync d2 show ?thesis
      by (simp add: questions_updateVoteCount answers_updateVoteCount answer_votes_restored)
  qed
  from v have "votes_of_pair ?d2 userId tgt = votes_of_pair d userId tgt"
    by (rule votes_of_pair_cong)
  with none have p: "votes_of_pair ?d2 userId tgt = []" by simp
  from qa have s: "stored_tally ?d2 tgt = stored_tally d tgt" by (cases tgt) simp_all
  from p s v qa show ?thesis by (simp only: simp_thms)
qed

theorem vote_toggle_twice_witness:
  "votes_of_pair voting_db 3 (OnQuestion 1) = []
   \<and> tally_in_sync voting_db (OnQuestion 1)
   \<and> votes_seq_ok voting_db
   \<and> stored_tally voting_db (OnQuestion 1) = [- 1]
   \<and> stored_tally (cast_vote voting_db 50 3 (OnQuestion 1) ''up'') (OnQuestion 1) = [0]
   \<and> stored_tally
         (cast_vote (cast_vote voting_db 50 3 (OnQuestion 1) ''up'') 51 3 (OnQuestion 1) ''up'')
         (OnQuestion 1) = [- 1]
   \<and> votes_of_pair
         (cast_vote (cast_vote voting_db 50 3 (OnQuestion 1) ''up'') 51 3 (OnQuestion 1) ''up'')
         3 (OnQuestion 1) = []"
proof -
  have h1: "''up'' = ''up'' \<or> ''up'' = ''down''" by simp
  have h2: "target_id (OnQuestion 1) \<noteq> 0" by simp
  have h3: "votes_of_pair voting_db 3 (OnQuestion 1) = []" by (simp add: voting_db_def)
  have h4: "tally_in_sync voting_db (OnQuestion 1)"
    by (simp add: voting_db_def net_question_votes_def)
  have h5: "votes_seq_ok voting_db" by (simp add: voting_db_def votes_seq_ok_def)
  have s0: "stored_tally voting_db (OnQuestion 1) = [- 1]" by (simp add: voting_db_def)
  have s1: "stored_tally (cast_vote voting_db 50 3 (OnQuestion 1) ''up'') (OnQuestion 1) = [0]"
    by (simp add: voting_db_def forum_users_def cast_vote_def post_vote_def getVote_def
          insertVoteSchema_parse_def or_null_def createVote_def updateVoteCount_def
          count_question_votes_def Let_def)
  from vote_toggle_twice [OF h1 h2 h3 h4 h5, of 50 51] h3 h4 h5 s0 s1 show ?thesis
    by simp
qed

text \<open>
  When the user already has a vote of the other type on the target, the first cast
  flips it and the second deletes it: in the example, user 2 has voted question 1 down
  (tally -1), casts up twice, and the tally goes to 1 and then to 0, not back to -1.
\<close>

theorem vote_toggle_twice_after_down_vote:
  "map v_voteType (votes_of_pair voting_db 2 (OnQuestion 1)) = [''down'']
   \<and> stored_tally voting_db (OnQuestion 1) = [- 1]
   \<and> tally_in_sync voting_db (OnQuestion 1)
   \<and> stored_tally (cast_vote voting_db 50 2 (OnQuestion 1) ''up'') (OnQuestion 1) = [1]
   \<and> stored_tally
         (cast_vote (cast_vote voting_db 50 2 (OnQuestion 1) ''up'') 51 2 (OnQuestion 1) ''up'')
         (OnQuestion 1) = [0]"
  by (simp add: voting_db_def forum_users_def cast_vote_def post_vote_def getVote_def
        updateVote_def deleteVote_def updateVoteCount_def count_question_votes_def
        net_question_votes_def Let_def)

text \<open>
  The stored tally can differ from the rows: \<open>deleteUser\<close> deletes the votes of a user
  without recomputing any tally. After user 2 is deleted from the example, question 1
  has no vote row and still the tally -1; user 3 then casts up twice and the tally ends
  at 0.
\<close>

lemma vote_toggle_twice_after_deleteUser:
  "votes (deleteUser voting_db 2) = []
   \<and> stored_tally (deleteUser voting_db 2) (OnQuestion 1) = [- 1]
   \<and> stored_tally
         (cast_vote (cast_vote (deleteUser voting_db 2) 50 3 (OnQuestion 1) ''up'') 51 3
            (OnQuestion 1) ''up'')
         (OnQuestion 1) = [0]"
  by (simp add: voting_db_def forum_users_def deleteUser_def deleteUser_statements_def
        cast_vote_def post_vote_def getVote_def or_null_def insertVoteSchema_parse_def
        createVote_def deleteVote_def updateVoteCount_def count_question_votes_def Let_def)

section \<open>A vote request without a target\<close>

text \<open>
  What the route does with a request in which neither \<open>questionId\<close> nor \<open>answerId\<close> is
  truthy: the lookup runs first, and the schema is applied only when the lookup finds no
  row. The invalid-input response is given exactly when the user has no vote row at all
  and \<open>voteType\<close> is neither \<open>up\<close> nor \<open>down\<close>; when the user has no vote row and
  \<open>voteType\<close> is valid, a vote row with both references null is inserted.
\<close>

lemma vote_without_target:
  assumes "\<not> truthy questionId" and "\<not> truthy answerId"
  shows "(snd (post_vote d now (Some userId) questionId answerId voteType) = VoteInvalid)
           = (filter (\<lambda>v. v_userId v = userId) (votes d) = []
              \<and> voteType \<noteq> ''up'' \<and> voteType \<noteq> ''down'')
         \<and> (if filter (\<lambda>v. v_userId v = userId) (votes d) = []
            then post_vote d now (Some userId) questionId answerId voteType =
                   (if voteType = ''up'' \<or> voteType = ''down''
                    then (d\<lparr>votes := votes d @
                                [\<lparr>v_id = votes_seq d + 1, v_userId = userId, v_questionId = None,
                                  v_answerId = None, v_voteType = voteType, v_createdAt = now\<rparr>],
                            votes_seq := votes_seq d + 1\<rparr>,
                          VoteCreated
                            \<lparr>v_id = votes_seq d + 1, v_userId = userId, v_questionId = None,
                             v_answerId = None, v_voteType = voteType, v_createdAt = now\<rparr>)
                    else (d, VoteInvalid))
            else True)"
proof -
  have g: "getVote d userId questionId answerId = first_row (filter (\<lambda>v. v_userId v = userId) (votes d))"
    using assms by (simp add: getVote_def)
  have n: "or_null questionId = None" "or_null answerId = None"
    using assms by (simp_all add: or_null_def)
  show ?thesis
  proof (cases "filter (\<lambda>v. v_userId v = userId) (votes d)")
    case Nil
    then show ?thesis
      by (simp add: post_vote_def g n insertVoteSchema_parse_def createVote_def
            updateVoteCount_def Let_def)
  next
    case (Cons v rest)
    then show ?thesis
      by (auto simp: post_vote_def g Let_def split: sum.splits)
  qed
qed

lemma vote_without_target_example:
  "\<not> truthy None \<and> \<not> truthy (Some 0)
   \<and> filter (\<lambda>v. v_userId v = 3) (votes voting_db) = []
   \<and> post_vote voting_db 50 (Some 3) None (Some 0) ''sideways'' = (voting_db, VoteInvalid)
   \<and> snd (post_vote voting_db 50 (Some 3) None (Some 0) ''down'')
       = VoteCreated \<lparr>v_id = 2, v_userId = 3, v_questionId = None, v_answerId = None,
                      v_voteType = ''down'', v_createdAt = 50\<rparr>"
proof -
  have h1: "\<not> truthy None" and h2: "\<not> truthy (Some 0)" by simp_all
  have e: "filter (\<lambda>v. v_userId v = 3) (votes voting_db) = []" by (simp add: voting_db_def)
  have s: "votes_seq voting_db = 1" by (simp add: voting_db_def)
  from vote_without_target [OF h1 h2, of voting_db 50 3 "''sideways''"]
       vote_without_target [OF h1 h2, of voting_db 50 3 "''down''"] h1 h2 e s
  show ?thesis by simp
qed

text \<open>
  C6. A vote request in which neither \<open>questionId\<close> nor \<open>answerId\<close> is set should be
  rejected as invalid input before any statement reaches the substrate. The route
  validates with \<open>insertVoteSchema\<close>, but only after the lookup of the existing vote and
  only on the insert path, and the schema accepts two null references. In the example,
  user 3 sends \<open>voteType = up\<close> and no target: the response is the created vote, and the
  vote table has a second row, with no target.
\<close>

theorem vote_without_target_accepted:
  "snd (post_vote voting_db 50 (Some 3) None None ''up'')
     = VoteCreated \<lparr>v_id = 2, v_userId = 3, v_questionId = None, v_answerId = None,
                    v_voteType = ''up'', v_createdAt = 50\<rparr>
   \<and> map (\<lambda>v. (v_id v, v_userId v, v_questionId v, v_answerId v))
         (votes (fst (post_vote voting_db 50 (Some 3) None None ''up'')))
       = [(1, 2, Some 1, None), (2, 3, None, None)]"
  by (simp add: voting_db_def forum_users_def post_vote_def getVote_def or_null_def
        insertVoteSchema_parse_def createVote_def updateVoteCount_def Let_def)

text \<open>
  When the user has a vote row, the lookup of a request without a target returns the
  first of the user's rows whatever its target is: user 2 sends \<open>voteType = down\<close> and no
  target, and the down vote on question 1 is removed.
\<close>

lemma vote_without_target_removes_a_vote:
  "post_vote voting_db 50 (Some 2) None None ''down'' =
     (voting_db\<lparr>votes := [],
                questions := map (\<lambda>q. q\<lparr>q_votes := 0\<rparr>) (questions voting_db)\<rparr>,
      VoteRemoved)"
  by (simp add: voting_db_def forum_users_def post_vote_def getVote_def deleteVote_def
        updateVoteCount_def count_question_votes_def Let_def)

section \<open>Notifications\<close>

text \<open>
  Answering a question notifies the author of the question unless the answerer is that
  author. Accepting an answer notifies the author of the answer found in the answer list
  of the question, unless the acceptor is that author; a notification of the accept
  route is always for an answer of the question, and an answer id that is not among the
  answers of the question produces none.
\<close>

lemma notifications_acceptAnswer [simp]:
  "notifications (acceptAnswer d questionId answerId) = notifications d"
  "notifications_seq (acceptAnswer d questionId answerId) = notifications_seq d"
  by (simp_all add: acceptAnswer_def Let_def)

lemma getQuestion_answers_list:
  assumes "getQuestion d questionId = Some question"
  shows "map aw_answer (qw_answers question)
           = sort_key (\<lambda>a. - a_createdAt a) (filter (\<lambda>a. a_questionId a = questionId) (answers d))"
proof -
  from assms obtain q where
    "question = \<lparr>qw_question = q, qw_author = author_of d (q_authorId q),
                 qw_answers = map (\<lambda>a. \<lparr>aw_answer = a, aw_author = author_of d (a_authorId a)\<rparr>)
                                (sort_key (\<lambda>a. - a_createdAt a)
                                   (filter (\<lambda>a. a_questionId a = questionId) (answers d))),
                 qw_count_answers = length (sort_key (\<lambda>a. - a_createdAt a)
                                   (filter (\<lambda>a. a_questionId a = questionId) (answers d)))\<rparr>"
    by (auto simp: getQuestion_def Let_def split: option.splits)
  then show ?thesis by (simp add: o_def)
qed

lemma getQuestion_answers:
  assumes "getQuestion d questionId = Some question"
  shows "set (map aw_answer (qw_answers question))
           = {a \<in> set (answers d). a_questionId a = questionId}"
  by (simp only: getQuestion_answers_list [OF assms] set_sort set_filter)

lemma find_aw_answer:
  "find (\<lambda>a. a_id (aw_answer a) = answerId) xs = Some ans
   \<Longrightarrow> aw_answer ans \<in> set (map aw_answer xs) \<and> a_id (aw_answer ans) = answerId"
  by (induction xs) (auto split: if_splits)

lemma find_aw_answer_None:
  "find (\<lambda>a. a_id (aw_answer a) = answerId) xs = None
   \<Longrightarrow> \<not> (\<exists>a \<in> set (map aw_answer xs). a_id a = answerId)"
  by (induction xs) (auto split: if_splits)

lemma post_accept_notifications:
  assumes "getQuestion d questionId = Some question"
    and "q_authorId (qw_question question) = userId"
  shows "notifications (fst (post_accept d now (Some userId) questionId answerId)) =
           (case find (\<lambda>a. a_id (aw_answer a) = answerId) (qw_answers question) of
              None \<Rightarrow> notifications d
            | Some ans \<Rightarrow>
                if a_authorId (aw_answer ans) \<noteq> userId
                then notifications d @
                       [\<lparr>n_id = notifications_seq d + 1, n_userId = a_authorId (aw_answer ans),
                         n_type = ''answer_accepted'', n_title = ''Answer Accepted'',
                         n_message = ''Your answer was accepted for: '' @ q_title (qw_question question),
                         n_questionId = Some questionId, n_answerId = Some answerId,
                         n_isRead = False, n_createdAt = now\<rparr>]
                else notifications d)"
  using assms
  by (simp add: post_accept_def createNotification_def Let_def split: option.splits)

lemma post_accept_notifies_answer_of_question:
  assumes "getQuestion d questionId = Some question"
    and "q_authorId (qw_question question) = userId"
    and "notifications (fst (post_accept d now (Some userId) questionId answerId)) \<noteq> notifications d"
  shows "\<exists>a \<in> set (answers d). a_questionId a = questionId \<and> a_id a = answerId
            \<and> a_authorId a \<noteq> userId
            \<and> map (\<lambda>n. (n_userId n, n_type n))
                  (notifications (fst (post_accept d now (Some userId) questionId answerId)))
                = map (\<lambda>n. (n_userId n, n_type n)) (notifications d)
                  @ [(a_authorId a, ''answer_accepted'')]"
proof (cases "find (\<lambda>a. a_id (aw_answer a) = answerId) (qw_answers question)")
  case None
  with assms show ?thesis by (simp add: post_accept_notifications)
next
  case (Some ans)
  from find_aw_answer [OF Some] getQuestion_answers [OF assms(1)]
  have "aw_answer ans \<in> set (answers d)" and "a_questionId (aw_answer ans) = questionId"
    and "a_id (aw_answer ans) = answerId" by auto
  moreover from assms Some have "a_authorId (aw_answer ans) \<noteq> userId"
    by (auto simp: post_accept_notifications split: if_splits)
  moreover from this assms(1,2) Some
  have "map (\<lambda>n. (n_userId n, n_type n))
          (notifications (fst (post_accept d now (Some userId) questionId answerId)))
        = map (\<lambda>n. (n_userId n, n_type n)) (notifications d)
          @ [(a_authorId (aw_answer ans), ''answer_accepted'')]"
    by (simp add: post_accept_notifications)
  ultimately show ?thesis by blast
qed

lemma post_accept_other_question_silent:
  assumes "\<not> (\<exists>a \<in> set (answers d). a_questionId a = questionId \<and> a_id a = answerId)"
  shows "notifications (fst (post_accept d now sessionUser questionId answerId)) = notifications d"
proof (cases sessionUser)
  case None
  then show ?thesis by (simp add: post_accept_def)
next
  case (Some userId)
  show ?thesis
  proof (cases "getQuestion d questionId")
    case None
    with Some show ?thesis by (simp add: post_accept_def)
  next
    case (Some question)
    have "find (\<lambda>a. a_id (aw_answer a) = answerId) (qw_answers question) = None"
    proof (rule ccontr)
      assume "find (\<lambda>a. a_id (aw_answer a) = answerId) (qw_answers question) \<noteq> None"
      then obtain ans where "find (\<lambda>a. a_id (aw_answer a) = answerId) (qw_answers question) = Some ans"
        by auto
      from find_aw_answer [OF this] getQuestion_answers [OF Some] assms show False by auto
    qed
    with Some \<open>sessionUser = Some userId\<close> show ?thesis
      by (simp add: post_accept_def Let_def)
  qed
qed

lemma post_answer_notifications:
  "notifications (fst (post_answer d now (Some userId) questionId (Some content))) =
     (case first_row (filter (\<lambda>q. q_id q = questionId) (questions d)) of
        None \<Rightarrow> notifications d
      | Some q \<Rightarrow>
          if q_authorId q \<noteq> userId
          then notifications d @
                 [\<lparr>n_id = notifications_seq d + 1, n_userId = q_authorId q,
                   n_type = ''question_answered'', n_title = ''New Answer'',
                   n_message = ''Someone answered your question: '' @ q_title q,
                   n_questionId = Some questionId, n_answerId = Some (answers_seq d + 1),
                   n_isRead = False, n_createdAt = now\<rparr>]
          else notifications d)"
  by (simp add: post_answer_def insertAnswerSchema_parse_def createAnswer_def getQuestion_def
        createNotification_def Let_def split: option.splits)

lemma post_answer_rejected:
  "sessionUser = None \<or> content = None
   \<Longrightarrow> post_answer d now sessionUser questionId content
         = (d, if sessionUser = None then AnswerUnauthorized else AnswerInvalid)"
  by (auto simp: post_answer_def insertAnswerSchema_parse_def split: option.splits)

text \<open>
  C9. A notification should be created exactly when a new answer is created by someone
  other than the question's author, or an answer is accepted and its author differs
  from the acceptor. In the example forum the author of question 1 accepts answer 21,
  an answer of question 2 written by user 3: the request succeeds and answer 21 is
  flagged accepted, but no notification is created, because the answer is looked up
  among the answers of question 1 only. Accepting answer 10 of question 1 (by user 2)
  notifies user 2.
\<close>

theorem accept_answer_of_other_question_silent:
  "snd (post_accept forum_db 100 (Some 1) 1 21) = AcceptOk
   \<and> map (\<lambda>a. (a_id a, a_authorId a, a_isAccepted a)) (answers forum_db)
       = [(10, 2, False), (20, 1, True), (21, 3, False)]
   \<and> map (\<lambda>a. (a_id a, a_authorId a, a_isAccepted a))
         (answers (fst (post_accept forum_db 100 (Some 1) 1 21)))
       = [(10, 2, False), (20, 1, True), (21, 3, True)]
   \<and> notifications (fst (post_accept forum_db 100 (Some 1) 1 21)) = []
   \<and> map (\<lambda>n. (n_userId n, n_type n, n_answerId n))
         (notifications (fst (post_accept forum_db 100 (Some 1) 1 10)))
       = [(2, ''answer_accepted'', Some 10)]"
  by (simp add: forum_db_def forum_users_def post_accept_def getQuestion_def acceptAnswer_def
        author_of_def createNotification_def Let_def)

end
